theory Spec2Isabelle
  imports Complex_Main "HOL-Library.Sublist"
begin

section \<open>Strings, regular expressions and the built-ins the code relies on\<close>

text \<open>
  A JavaScript string is modelled as a \<^typ>\<open>string\<close>: a list of code units below 256.
  In that range the class \<^verbatim>\<open>\s\<close> holds tab, line feed, vertical tab, form feed, carriage
  return, space and the no-break space; \<^verbatim>\<open>\w\<close> is \<^verbatim>\<open>[A-Za-z0-9_]\<close>.
\<close>

definition isSpace :: "char \<Rightarrow> bool" where
  "isSpace c \<longleftrightarrow>
     c \<in> set [CHR 0x09, CHR 0x0A, CHR 0x0B, CHR 0x0C, CHR 0x0D, CHR 0x20, CHR 0xA0]"

definition isWord :: "char \<Rightarrow> bool" where
  "isWord c \<longleftrightarrow>
     (let n = (of_char c :: nat)
      in (65 \<le> n \<and> n \<le> 90) \<or> (97 \<le> n \<and> n \<le> 122) \<or> (48 \<le> n \<and> n \<le> 57) \<or> n = 95)"

text \<open>The class \<^verbatim>\<open>[~\w\\./]\<close> of both directive patterns.\<close>

definition isPathChar :: "char \<Rightarrow> bool" where
  "isPathChar c \<longleftrightarrow>
     c = CHR ''~'' \<or> isWord c \<or> c = CHR 0x5C \<or> c = CHR ''.'' \<or> c = CHR ''/''"

text \<open>\<^verbatim>\<open>s.split("\n")\<close>: the pieces between line feeds; the empty string gives one empty piece.\<close>

fun split_nl :: "string \<Rightarrow> string list" where
  "split_nl [] = [[]]"
| "split_nl (c # cs) =
     (let r = split_nl cs
      in if c = CHR 0x0A then [] # r else (c # hd r) # tl r)"

text \<open>\<^verbatim>\<open>xs.join(sep)\<close>.\<close>

fun join :: "string \<Rightarrow> string list \<Rightarrow> string" where
  "join sep [] = []"
| "join sep [x] = x"
| "join sep (x # y # ys) = x @ sep @ join sep (y # ys)"

text \<open>
  \<^verbatim>\<open>s.split(/\s+/)\<close>: the pieces between maximal runs of white space. A run at the
  start of the string leaves an empty first piece, a run at the end an empty last piece.
\<close>

function split_ws :: "string \<Rightarrow> string list" where
  "split_ws [] = [[]]"
| "split_ws (c # cs) =
     (if isSpace c then [] # split_ws (dropWhile isSpace cs)
      else (let r = split_ws cs in (c # hd r) # tl r))"
  by pat_completeness auto
termination
  by (relation "measure length") (auto simp: less_Suc_eq_le length_dropWhile_le)

text \<open>
  \<^verbatim>\<open>line.match(/^\s*KW\s+[~\w\\./]+/)\<close> as a truth value, for a keyword \<open>kw\<close> that starts
  with a character outside \<^verbatim>\<open>\s\<close>. Neither the keyword nor the path class meets \<^verbatim>\<open>\s\<close>, so
  the greedy runs \<^verbatim>\<open>\s*\<close> and \<^verbatim>\<open>\s+\<close> can only match maximally: skip the leading white
  space, read the keyword, require one white space character, skip the rest of that run,
  and require one character of the path class.
\<close>

definition matchDirective :: "string \<Rightarrow> string \<Rightarrow> bool" where
  "matchDirective kw line =
     (let r = dropWhile isSpace line
      in take (length kw) r = kw \<and>
         (case drop (length kw) r of
            [] \<Rightarrow> False
          | c # cs \<Rightarrow> isSpace c \<and>
              (case dropWhile isSpace cs of [] \<Rightarrow> False | d # _ \<Rightarrow> isPathChar d)))"

text \<open>The same pattern, read as the language of its prefixes.\<close>

definition directive_shape :: "string \<Rightarrow> string \<Rightarrow> bool" where
  "directive_shape kw line \<longleftrightarrow>
     (\<exists>ws1 ws2 p rest. line = ws1 @ kw @ ws2 @ p @ rest \<and>
        (\<forall>c\<in>set ws1. isSpace c) \<and> ws2 \<noteq> [] \<and> (\<forall>c\<in>set ws2. isSpace c) \<and>
        p \<noteq> [] \<and> (\<forall>c\<in>set p. isPathChar c))"

text \<open>\<^verbatim>\<open>s.includes(t)\<close>: \<open>t\<close> occurs in \<open>s\<close> as a contiguous piece.\<close>

fun str_includes :: "string \<Rightarrow> string \<Rightarrow> bool" where
  "str_includes [] t = (t = [])"
| "str_includes (c # cs) t = (prefix t (c # cs) \<or> str_includes cs t)"

datatype js_error = TypeError | ENOENT | SyntaxError

section \<open>Directive expansion: \<^verbatim>\<open>importFiles\<close>\<close>

text \<open>
  The file system is a map from paths to file contents; \<^verbatim>\<open>fs.readFileSync\<close> throws
  where the map is undefined. \<^verbatim>\<open>Utils.normalizePath\<close> is a parameter \<open>nrm\<close> of the model.
\<close>

type_synonym filesystem = "string \<rightharpoonup> string"

type_synonym directive_result = "bool \<times> string \<times> string list"

text \<open>\<^verbatim>\<open>line.split(/\s+/)[1]\<close>; \<open>None\<close> is JavaScript's \<^verbatim>\<open>undefined\<close>.\<close>

definition fname_of :: "string \<Rightarrow> string option" where
  "fname_of line = (case split_ws line of _ # f # _ \<Rightarrow> Some f | _ \<Rightarrow> None)"

definition importFile_match :: "string \<Rightarrow> bool" where
  "importFile_match line = matchDirective ''#import'' line"

definition diffFile_match :: "string \<Rightarrow> bool" where
  "diffFile_match line = matchDirective ''#diff'' line"

definition not_found_text :: "string \<Rightarrow> string" where
  "not_found_text filePath = ''#import file '' @ filePath @ '' was not found''"

text \<open>
  The loop over the lines, with the two arrays it fills as accumulators. The early
  \<^verbatim>\<open>return\<close> in the \<^verbatim>\<open>catch\<close> ends the recursion.
\<close>

fun importLoop ::
  "(string \<Rightarrow> string) \<Rightarrow> filesystem \<Rightarrow> string list \<Rightarrow> string list \<Rightarrow> string list
     \<Rightarrow> js_error + directive_result" where
  "importLoop nrm fs [] modifiedLines toDiffFiles =
     Inr (True, join [CHR 0x0A] modifiedLines, toDiffFiles)"
| "importLoop nrm fs (line # lines) modifiedLines toDiffFiles =
     (if importFile_match line \<or> diffFile_match line then
        (case fname_of line of
           None \<Rightarrow> Inl TypeError
         | Some fname \<Rightarrow>
             (let filePath = nrm fname;
                  toDiffFiles' = (if diffFile_match line then toDiffFiles @ [filePath]
                                  else toDiffFiles)
              in case fs filePath of
                   None \<Rightarrow> Inr (False, not_found_text filePath, toDiffFiles')
                 | Some fileContents \<Rightarrow>
                     importLoop nrm fs lines (modifiedLines @ split_nl fileContents)
                       toDiffFiles'))
      else importLoop nrm fs lines (modifiedLines @ [line]) toDiffFiles)"

definition importFiles ::
  "(string \<Rightarrow> string) \<Rightarrow> filesystem \<Rightarrow> string \<Rightarrow> js_error + directive_result" where
  "importFiles nrm fs content = importLoop nrm fs (split_nl content) [] []"

text \<open>
  Modelled from the spec: \<^verbatim>\<open>Utils.normalizePath\<close> (\<^verbatim>\<open>utils.ts\<close> is not among the sources).
  It expands a leading home-directory marker \<^verbatim>\<open>~\<close> to the user's home directory and
  returns every other path unchanged.
\<close>

definition normalizePath :: "string \<Rightarrow> string \<Rightarrow> string" where
  "normalizePath home p = (case p of c # cs \<Rightarrow> if c = CHR ''~'' then home @ cs else p | [] \<Rightarrow> p)"

text \<open>A line is a directive line when one of the two patterns matches it.\<close>

definition is_directive :: "string \<Rightarrow> bool" where
  "is_directive line \<longleftrightarrow> importFile_match line \<or> diffFile_match line"

text \<open>What a run of lines whose directives can all be read adds to the two arrays.\<close>

fun spliced :: "(string \<Rightarrow> string) \<Rightarrow> filesystem \<Rightarrow> string list \<Rightarrow> string list" where
  "spliced nrm fs [] = []"
| "spliced nrm fs (line # lines) =
     (if is_directive line
      then (case fname_of line of
              None \<Rightarrow> []
            | Some f \<Rightarrow> (case fs (nrm f) of None \<Rightarrow> [] | Some c \<Rightarrow> split_nl c))
      else [line]) @ spliced nrm fs lines"

fun diff_targets :: "(string \<Rightarrow> string) \<Rightarrow> string list \<Rightarrow> string list" where
  "diff_targets nrm [] = []"
| "diff_targets nrm (line # lines) =
     (if diffFile_match line
      then (case fname_of line of None \<Rightarrow> [] | Some f \<Rightarrow> [nrm f])
      else []) @ diff_targets nrm lines"

definition readable :: "(string \<Rightarrow> string) \<Rightarrow> filesystem \<Rightarrow> string \<Rightarrow> bool" where
  "readable nrm fs line \<longleftrightarrow> (case fname_of line of None \<Rightarrow> False | Some f \<Rightarrow> fs (nrm f) \<noteq> None)"

section \<open>The conversation log\<close>

record message =
  role :: string
  content :: string

text \<open>The object \<^verbatim>\<open>jsonLog\<close> that \<^verbatim>\<open>GptRequest.fetch\<close> builds.\<close>

record LogEntry =
  messages :: "message list"
  time :: string
  tokens :: nat
  cost :: string
  duration :: rat

text \<open>
  The text of the file \<^verbatim>\<open>LOG_FILE\<close> is kept up to \<^verbatim>\<open>JSON.parse\<close>: either it is the JSON
  text of an array of entries, or it is not, and then \<^verbatim>\<open>JSON.parse\<close> (or the first use of
  what it returns) throws. What \<^verbatim>\<open>JSON.stringify\<close> writes for an array parses back to that
  array (entries hold strings and finite numbers only). The file itself is absent
  (\<open>None\<close>) or holds such a text. It is kept apart from the files that directives read.
\<close>

datatype file_text = Json "LogEntry list" | Garbage

type_synonym logfile = "file_text option"

definition JSON_parse :: "file_text \<Rightarrow> js_error + LogEntry list" where
  "JSON_parse t = (case t of Json logArray \<Rightarrow> Inr logArray | Garbage \<Rightarrow> Inl SyntaxError)"

definition JSON_stringify :: "LogEntry list \<Rightarrow> file_text" where
  "JSON_stringify logArray = Json logArray"

text \<open>\<^verbatim>\<open>fs.readFileSync(Settings.getSetting("LOG_FILE"), "utf8")\<close>.\<close>

definition readLogFile :: "logfile \<Rightarrow> js_error + file_text" where
  "readLogFile file = (case file of None \<Rightarrow> Inl ENOENT | Some t \<Rightarrow> Inr t)"

text \<open>
  \<^verbatim>\<open>appendToLog\<close>: where \<^verbatim>\<open>accessSync\<close> throws, the file is first written as \<^verbatim>\<open>"[]"\<close>. The
  result is the file after the call, or the exception; an exception leaves a file that
  was there as it was.
\<close>

definition appendToLog :: "LogEntry \<Rightarrow> logfile \<Rightarrow> js_error + logfile" where
  "appendToLog jsonLog file =
     (let file1 = (case file of None \<Rightarrow> Some (JSON_stringify []) | Some t \<Rightarrow> Some t)
      in case readLogFile file1 of
           Inl e \<Rightarrow> Inl e
         | Inr logFile \<Rightarrow>
             (case JSON_parse logFile of
                Inl e \<Rightarrow> Inl e
              | Inr logArray \<Rightarrow> Inr (Some (JSON_stringify (logArray @ [jsonLog])))))"

text \<open>\<^verbatim>\<open>xs.slice(-1)\<close>.\<close>

definition slice_last :: "'a list \<Rightarrow> 'a list" where
  "slice_last xs = drop (length xs - 1) xs"

definition getPrviousRequests :: "logfile \<Rightarrow> js_error + message list" where
  "getPrviousRequests file =
     (case readLogFile file of
        Inl e \<Rightarrow> Inl e
      | Inr t \<Rightarrow>
          (case JSON_parse t of
             Inl e \<Rightarrow> Inl e
           | Inr logContents \<Rightarrow>
               (let lastEntry = slice_last logContents
                in case lastEntry of [] \<Rightarrow> Inr [] | e # _ \<Rightarrow> Inr (messages e))))"

text \<open>Appending a run of entries one after the other, as successive exchanges do.\<close>

fun appendAll :: "LogEntry list \<Rightarrow> logfile \<Rightarrow> js_error + logfile" where
  "appendAll [] file = Inr file"
| "appendAll (e # es) file =
     (case appendToLog e file of Inl err \<Rightarrow> Inl err | Inr file' \<Rightarrow> appendAll es file')"

text \<open>The states of the log the data model allows: no file, or an array of entries.\<close>

definition valid_log :: "logfile \<Rightarrow> bool" where
  "valid_log file = (case file of None \<Rightarrow> True | Some (Json _) \<Rightarrow> True | Some Garbage \<Rightarrow> False)"

text \<open>The entries a valid log holds; a missing file holds none.\<close>

definition entries_of :: "logfile \<Rightarrow> LogEntry list" where
  "entries_of file = (case file of Some (Json logArray) \<Rightarrow> logArray | _ \<Rightarrow> [])"

section \<open>The backend: class \<^verbatim>\<open>LLM\<close>\<close>

datatype GptResult = GptResult (gpt_text: string) (gpt_tokens: nat)

text \<open>
  What \<^verbatim>\<open>openai.createChatCompletion\<close> does. Without \<^verbatim>\<open>stream\<close> it throws an error with a
  message or returns data: the usage total where there is one, and the content of the
  first choice's message where there is one. With \<^verbatim>\<open>stream\<close> it throws, or returns a
  stream that delivers chunks to the \<^verbatim>\<open>data\<close> handler; \<^verbatim>\<open>res.data.usage\<close> is the second field.
  The \<^verbatim>\<open>data\<close> handler is the only listener on the stream, so the value holds the chunks
  delivered and not the way the stream ends: a stream that ends, or whose transport fails,
  before the end signal is a list of chunks without \<^verbatim>\<open>[DONE]\<close>.
\<close>

datatype batch_reply = BatchError string | BatchData "nat option" "string option"

datatype stream_reply = StreamError string | StreamData "string list" "nat option"

text \<open>
  \<^verbatim>\<open>JSON.parse(message).choices[0].delta.content\<close>: an exception anywhere in the expression,
  no content, or a text.
\<close>

datatype delta = ParseError | NoContent | Content string

datatype api_call = ChatCompletion string "message list" bool

datatype effect =
    ConsoleLog string
  | ConsoleError string
  | StatsLine "nat option" string rat bool
  | EstimateLine nat
  | SaveFiles string "string option" bool
  | Spawn string "string list"

text \<open>
  Everything outside the two classes: the files, the external functions, the settings,
  the clock and the terminal. \<open>TOKEN_COST_text n\<close> is the string
  \<^verbatim>\<open>tokens * Settings.getSetting("TOKEN_COST").toFixed(6)\<close> for \<open>n\<close> tokens.
\<close>

record env =
  files :: filesystem
  normalizePath_fn :: "string \<Rightarrow> string"
  countTokens :: "string \<Rightarrow> nat"
  createChatCompletion :: "string \<Rightarrow> message list \<Rightarrow> batch_reply"
  createChatCompletionStream :: "string \<Rightarrow> message list \<Rightarrow> stream_reply"
  deltaContent :: "string \<Rightarrow> delta"
  saveFiles :: "string \<Rightarrow> string option \<Rightarrow> bool \<Rightarrow> string option"
  DEFAULT_MODEL :: string
  DIFF_COMMAND :: string
  TOKEN_COST_text :: "nat \<Rightarrow> string"
  start_ms :: int
  end_ms :: int
  currentTimestamp :: string
  isatty :: bool

record options =
  chat :: bool
  stream :: bool
  stats :: bool
  model :: "string option"
  dryrun :: bool
  save :: bool
  diff :: "string option"
  prompt :: "string option"

text \<open>A string option is truthy when it is there and not empty.\<close>

definition truthy :: "string option \<Rightarrow> bool" where
  "truthy v = (case v of None \<Rightarrow> False | Some s \<Rightarrow> s \<noteq> [])"

text \<open>\<^verbatim>\<open>s.trim()\<close>.\<close>

definition trim :: "string \<Rightarrow> string" where
  "trim s = rev (dropWhile isSpace (rev (dropWhile isSpace s)))"

text \<open>\<^verbatim>\<open>line.replace(/^data: /, "")\<close>.\<close>

definition strip_data :: "string \<Rightarrow> string" where
  "strip_data line = (if prefix ''data: '' line then drop 6 line else line)"

text \<open>\<^verbatim>\<open>text.replace(/\n+/g, "\n")\<close>: every run of line feeds becomes one line feed.\<close>

fun collapse_nl :: "string \<Rightarrow> string" where
  "collapse_nl (c # d # cs) =
     (if c = CHR 0x0A \<and> d = CHR 0x0A then collapse_nl (d # cs) else c # collapse_nl (d # cs))"
| "collapse_nl cs = cs"

text \<open>\<^verbatim>\<open>text.match(/^\s*$/)\<close>.\<close>

definition blank :: "string \<Rightarrow> bool" where
  "blank s = list_all isSpace s"

text \<open>The message of the error that \<^verbatim>\<open>fs.readFileSync\<close> throws for a missing file.\<close>

definition enoent_message :: "string \<Rightarrow> string" where
  "enoent_message p = ''ENOENT: no such file or directory, open '' @ [CHR 0x27] @ p @ [CHR 0x27]"

text \<open>
  The variables that the \<^verbatim>\<open>data\<close> handler of \<^verbatim>\<open>streamResponse\<close> shares: the text so far,
  \<^verbatim>\<open>first\<close>, whether the spinner is still there, and the value the promise was resolved
  with. A promise keeps the first value it is resolved with.
\<close>

record stream_state =
  response :: string
  first :: bool
  spinner :: bool
  resolved :: "GptResult option"

definition resolve :: "GptResult \<Rightarrow> stream_state \<Rightarrow> stream_state" where
  "resolve r st = (case resolved st of None \<Rightarrow> st\<lparr>resolved := Some r\<rparr> | Some _ \<Rightarrow> st)"

text \<open>
  The body of the loop over the lines of one chunk. The flag says that the handler
  returned (after \<^verbatim>\<open>[DONE]\<close>). What is written to the terminal is left out.
\<close>

definition handle_line :: "env \<Rightarrow> nat option \<Rightarrow> stream_state \<Rightarrow> string \<Rightarrow> stream_state \<times> bool" where
  "handle_line e usage st line =
     (let message = strip_data line
      in if message = ''[DONE]'' then
           (let n = (case usage of Some total_tokens \<Rightarrow> total_tokens | None \<Rightarrow> 0)
            in (resolve (GptResult (response st) n) st, True))
         else
           (case deltaContent e message of
              Content txt \<Rightarrow>
                if txt \<noteq> [] then
                  (let st1 = st\<lparr>spinner := False\<rparr>;
                       st2 = (if first st1 \<and> blank txt then st1
                              else st1\<lparr>response := response st1 @ collapse_nl txt\<rparr>)
                   in (st2\<lparr>first := False\<rparr>, False))
                else (st, False)
            | NoContent \<Rightarrow> (st, False)
            | ParseError \<Rightarrow> (st, False)))"

fun handle_lines :: "env \<Rightarrow> nat option \<Rightarrow> stream_state \<Rightarrow> string list \<Rightarrow> stream_state" where
  "handle_lines e usage st [] = st"
| "handle_lines e usage st (line # lines) =
     (case handle_line e usage st line of
        (st', returned) \<Rightarrow> if returned then st' else handle_lines e usage st' lines)"

text \<open>The \<^verbatim>\<open>data\<close> handler, for one chunk.\<close>

definition on_data :: "env \<Rightarrow> nat option \<Rightarrow> stream_state \<Rightarrow> string \<Rightarrow> stream_state" where
  "on_data e usage st chunk =
     handle_lines e usage st (filter (\<lambda>line. trim line \<noteq> []) (split_nl chunk))"

definition error_result :: "string \<Rightarrow> GptResult" where
  "error_result error_message = GptResult (''Error:'' @ error_message) 0"

text \<open>
  The start of the \<^verbatim>\<open>try\<close> block of \<^verbatim>\<open>streamResponse\<close>: with the option \<^verbatim>\<open>prompt\<close>, the
  prompt file is read and pushed as a system message onto \<^verbatim>\<open>messages\<close>, which is the
  caller's array \<^verbatim>\<open>queries\<close>. \<open>Inl\<close> is the message of the error the read throws.
\<close>

definition push_prompt :: "env \<Rightarrow> options \<Rightarrow> message list \<Rightarrow> string + message list" where
  "push_prompt e opts queries =
     (case prompt opts of
        None \<Rightarrow> Inr queries
      | Some p \<Rightarrow>
          if p = [] then Inr queries
          else (case files e p of
                  None \<Rightarrow> Inl (enoent_message p)
                | Some promptContent \<Rightarrow>
                    Inr (queries @ [\<lparr>role = ''system'', content = promptContent\<rparr>])))"

text \<open>
  \<^verbatim>\<open>streamResponse\<close>. The result is the value the promise is resolved with (\<open>None\<close>: it is
  never resolved), the array \<^verbatim>\<open>queries\<close> after the call and the calls made to the provider.
  The \<^verbatim>\<open>catch\<close> covers the read of the prompt file and the call to the provider.
\<close>

definition streamResponse ::
  "env \<Rightarrow> string \<Rightarrow> message list \<Rightarrow> options \<Rightarrow> bool
     \<Rightarrow> GptResult option \<times> message list \<times> api_call list" where
  "streamResponse e mdl queries opts spin =
     (case push_prompt e opts queries of
        Inl error_message \<Rightarrow> (Some (error_result error_message), queries, [])
      | Inr msgs \<Rightarrow>
          (case createChatCompletionStream e mdl msgs of
             StreamError error_message \<Rightarrow>
               (Some (error_result error_message), msgs, [ChatCompletion mdl msgs True])
           | StreamData chunks usage \<Rightarrow>
               (resolved (foldl (on_data e usage)
                            \<lparr>response = [], first = True, spinner = spin, resolved = None\<rparr>
                            chunks),
                msgs, [ChatCompletion mdl msgs True])))"

text \<open>The message of the TypeError that \<^verbatim>\<open>queries[0].content\<close> throws on an empty array.\<close>

definition undefined_content_message :: string where
  "undefined_content_message = ''Cannot read properties of undefined (reading 'content')''"

text \<open>\<^verbatim>\<open>this.model\<close> after the first statement of \<^verbatim>\<open>LLM.fetch\<close>.\<close>

definition model_of :: "env \<Rightarrow> options \<Rightarrow> string" where
  "model_of e opts =
     (case model opts of
        None \<Rightarrow> DEFAULT_MODEL e
      | Some m \<Rightarrow> if m = [] then DEFAULT_MODEL e else m)"

text \<open>\<^verbatim>\<open>LLM.fetch\<close>, with the same three results.\<close>

definition LLM_fetch ::
  "env \<Rightarrow> message list \<Rightarrow> options \<Rightarrow> bool \<Rightarrow> GptResult option \<times> message list \<times> api_call list" where
  "LLM_fetch e queries opts spin =
     (let mdl = model_of e opts
      in if stream opts then streamResponse e mdl queries opts spin
         else
           (case createChatCompletion e mdl queries of
              BatchError error_message \<Rightarrow>
                (Some (error_result error_message), queries, [ChatCompletion mdl queries False])
            | BatchData usage choice \<Rightarrow>
                (let n = (case usage of Some total_tokens \<Rightarrow> total_tokens | None \<Rightarrow> 0);
                     txt = (case choice of Some c \<Rightarrow> c | None \<Rightarrow> [])
                 in case queries of
                      [] \<Rightarrow> (Some (error_result undefined_content_message), queries,
                               [ChatCompletion mdl queries False])
                    | _ # _ \<Rightarrow> (Some (GptResult txt n), queries,
                                  [ChatCompletion mdl queries False]))))"

text \<open>
  The backend call for \<open>queries\<close> ends in the \<^verbatim>\<open>catch\<close> of \<^verbatim>\<open>LLM.fetch\<close> or of
  \<^verbatim>\<open>streamResponse\<close>, with an error whose message is \<open>m\<close>.
\<close>

definition backend_throws :: "env \<Rightarrow> options \<Rightarrow> message list \<Rightarrow> string \<Rightarrow> bool" where
  "backend_throws e opts queries m =
     (if stream opts then
        (case push_prompt e opts queries of
           Inl error_message \<Rightarrow> m = error_message
         | Inr msgs \<Rightarrow> createChatCompletionStream e (model_of e opts) msgs = StreamError m)
      else createChatCompletion e (model_of e opts) queries = BatchError m)"

text \<open>
  The lines that the \<^verbatim>\<open>data\<close> handler sees over a whole stream, the texts of those that
  carry one, and what the handler makes of a run of texts: empty texts are skipped, the
  first of the others is dropped when it is white space only, and runs of line feeds
  inside each text are collapsed.
\<close>

definition stream_lines :: "string list \<Rightarrow> string list" where
  "stream_lines chunks =
     concat (map (\<lambda>chunk. filter (\<lambda>line. trim line \<noteq> []) (split_nl chunk)) chunks)"

definition is_done :: "string \<Rightarrow> bool" where
  "is_done line = (strip_data line = ''[DONE]'')"

definition fragment_texts :: "env \<Rightarrow> string list \<Rightarrow> string list" where
  "fragment_texts e ls =
     concat (map (\<lambda>line. case deltaContent e (strip_data line) of
                            Content txt \<Rightarrow> [txt] | NoContent \<Rightarrow> [] | ParseError \<Rightarrow> []) ls)"

definition kept_fragments :: "string list \<Rightarrow> string list" where
  "kept_fragments ts =
     (case filter (\<lambda>t. t \<noteq> []) ts of
        [] \<Rightarrow> []
      | t # rest \<Rightarrow> if blank t then rest else t # rest)"

definition streamed_text :: "string list \<Rightarrow> string" where
  "streamed_text ts = concat (map collapse_nl (kept_fragments ts))"

section \<open>The session: class \<^verbatim>\<open>GptRequest\<close>\<close>

text \<open>
  What a call can change: the log file, the calls made to the provider, and what was
  printed, saved and spawned. A call returns, raises, or waits for ever on a promise that
  is never resolved.
\<close>

record world =
  logFile :: logfile
  calls :: "api_call list"
  effects :: "effect list"

datatype 'a outcome = Returned 'a | Raised js_error | Pending

definition emit :: "effect list \<Rightarrow> world \<Rightarrow> world" where
  "emit es w = w\<lparr>effects := effects w @ es\<rparr>"

text \<open>
  The figures of \<^verbatim>\<open>GptRequest.fetch\<close>: \<^verbatim>\<open>tokens\<close> (the count of the result, replaced by an
  estimate over the request and the result's text when it is 0), \<^verbatim>\<open>cost\<close> and \<^verbatim>\<open>duration\<close>.
\<close>

definition token_figure :: "env \<Rightarrow> string \<Rightarrow> GptResult \<Rightarrow> nat" where
  "token_figure e request gptResult =
     (if gpt_tokens gptResult = 0 then countTokens e (request @ gpt_text gptResult)
      else gpt_tokens gptResult)"

definition cost_text :: "env \<Rightarrow> options \<Rightarrow> nat \<Rightarrow> string" where
  "cost_text e opts n =
     (if \<not> truthy (model opts) \<or> model opts = Some ''gpt-3.5-turbo''
      then ''$'' @ TOKEN_COST_text e n
      else ''Cost only available for GPT-3.5-turbo'')"

definition elapsed :: "env \<Rightarrow> rat" where
  "elapsed e = of_int (end_ms e - start_ms e) / 1000"

text \<open>
  \<^verbatim>\<open>GptRequest.fetch\<close>. The line of statistics is kept as its parts: the token figure (left
  out of the line when it is 0), the cost, the duration, and whether the note about
  estimates is added.
\<close>

definition fetch :: "env \<Rightarrow> options \<Rightarrow> string \<Rightarrow> bool \<Rightarrow> world \<Rightarrow> string outcome \<times> world" where
  "fetch e opts request useSpinner w =
     (case (if chat opts then getPrviousRequests (logFile w) else Inr []) of
        Inl err \<Rightarrow> (Raised err, w)
      | Inr previous \<Rightarrow>
          (case LLM_fetch e (previous @ [\<lparr>role = ''user'', content = request\<rparr>]) opts useSpinner of
             (res, msgs, made) \<Rightarrow>
               (let w1 = w\<lparr>calls := calls w @ made\<rparr>
                in case res of
                     None \<Rightarrow> (Pending, w1)
                   | Some gptResult \<Rightarrow>
                       (let n = token_figure e request gptResult;
                            c = cost_text e opts n;
                            resp = trim (gpt_text gptResult);
                            d = elapsed e;
                            w2 = (if \<not> stream opts \<and> useSpinner then emit [ConsoleLog resp] w1
                                  else w1);
                            w3 = (if stats opts
                                  then emit [StatsLine (if 0 < n then Some n else None) c d
                                               (stream opts)] w2
                                  else w2);
                            jsonLog = \<lparr>messages = msgs @ [\<lparr>role = ''assistant'', content = resp\<rparr>],
                                       time = currentTimestamp e, tokens = n, cost = c,
                                       duration = d\<rparr>
                        in case appendToLog jsonLog (logFile w3) of
                             Inl err \<Rightarrow> (Raised err, w3)
                           | Inr lf \<Rightarrow> (Returned resp, w3\<lparr>logFile := lf\<rparr>)))))"

text \<open>What \<^verbatim>\<open>GptRequest.fetch\<close> prints and what it hands to \<^verbatim>\<open>appendToLog\<close>, for a result.\<close>

definition printed :: "env \<Rightarrow> options \<Rightarrow> string \<Rightarrow> bool \<Rightarrow> GptResult \<Rightarrow> effect list" where
  "printed e opts request useSpinner r =
     (if \<not> stream opts \<and> useSpinner then [ConsoleLog (trim (gpt_text r))] else []) @
     (if stats opts
      then [StatsLine (if 0 < token_figure e request r then Some (token_figure e request r)
                       else None)
              (cost_text e opts (token_figure e request r)) (elapsed e) (stream opts)]
      else [])"

definition jsonLog_of :: "env \<Rightarrow> options \<Rightarrow> string \<Rightarrow> message list \<Rightarrow> GptResult \<Rightarrow> LogEntry" where
  "jsonLog_of e opts request msgs r =
     \<lparr>messages = msgs @ [\<lparr>role = ''assistant'', content = trim (gpt_text r)\<rparr>],
      time = currentTimestamp e, tokens = token_figure e request r,
      cost = cost_text e opts (token_figure e request r), duration = elapsed e\<rparr>"

text \<open>The messages a call of \<^verbatim>\<open>GptRequest.fetch\<close> starts from.\<close>

definition previous_messages :: "options \<Rightarrow> world \<Rightarrow> js_error + message list" where
  "previous_messages opts w = (if chat opts then getPrviousRequests (logFile w) else Inr [])"

text \<open>
  The start of \<^verbatim>\<open>submitChat\<close>, where \<open>ty\<close> is its parameter \<^verbatim>\<open>type\<close>: the request text, or
  the way the function ends before it has one (the error about a missing file name, or
  the exception of \<^verbatim>\<open>readFileSync\<close>).
\<close>

definition read_request ::
  "env \<Rightarrow> string \<Rightarrow> string list \<Rightarrow> world \<Rightarrow> (unit outcome \<times> world) + string" where
  "read_request e ty args w =
     (if ty = ''input'' then
        (case args of
           _ # inputFile # _ \<Rightarrow>
             (case files e inputFile of
                None \<Rightarrow> Inl (Raised ENOENT, w)
              | Some c \<Rightarrow> Inr c)
         | _ \<Rightarrow>
             Inl (Returned (), emit [ConsoleError ''Need input file name in input command''] w))
      else Inr (join '' '' (tl args)))"

text \<open>
  \<^verbatim>\<open>submitChat\<close>. \<^verbatim>\<open>saveFiles\<close> is a function of the environment; the call is recorded as
  an effect.
\<close>

definition submitChat ::
  "env \<Rightarrow> string \<Rightarrow> string list \<Rightarrow> options \<Rightarrow> bool \<Rightarrow> world \<Rightarrow> unit outcome \<times> world" where
  "submitChat e ty args opts useSpinner0 w =
     (let useSpinner = (useSpinner0 \<and> isatty e)
      in case read_request e ty args w of
           Inl early \<Rightarrow> early
         | Inr request \<Rightarrow>
             (case importFiles (normalizePath_fn e) (files e) request of
                Inl err \<Rightarrow> (Raised err, w)
              | Inr (success, txt, diffFiles) \<Rightarrow>
                  if \<not> success then (Returned (), emit [ConsoleError txt] w)
                  else if dryrun opts then
                    (Returned (), emit [ConsoleLog txt, EstimateLine (countTokens e txt)] w)
                  else
                    (case fetch e opts txt useSpinner w of
                       (Raised err, w1) \<Rightarrow> (Raised err, w1)
                     | (Pending, w1) \<Rightarrow> (Pending, w1)
                     | (Returned resp, w1) \<Rightarrow>
                         if ty = ''input'' \<or> save opts then
                           (let diffFile = (if truthy (diff opts) then diff opts
                                            else (case diffFiles of
                                                    [] \<Rightarrow> diff opts
                                                  | f # _ \<Rightarrow> Some f));
                                newFile = saveFiles e resp diffFile (save opts);
                                w2 = emit [SaveFiles resp diffFile (save opts)] w1
                            in case (diffFile, newFile) of
                                 (Some d, Some n) \<Rightarrow>
                                   if d \<noteq> [] \<and> n \<noteq> []
                                   then (Returned (), emit [Spawn (DIFF_COMMAND e) [n, d]] w2)
                                   else (Returned (), w2)
                               | _ \<Rightarrow> (Returned (), w2))
                         else (Returned (), w1))))"

section \<open>An environment for concrete runs\<close>

text \<open>
  A stream payload that carries the text \<open>t\<close> (for texts that need no escaping), a
  \<^verbatim>\<open>JSON.parse\<close> for the payloads used below, and an environment around them: a token
  estimate of one token per character, a provider that answers \<^verbatim>\<open>Hi there\<close> with 42
  tokens, and a stream of two fragments and the end signal, with no usage total.
\<close>

definition example_payload :: "string \<Rightarrow> string" where
  "example_payload t = ''{\"choices\":[{\"delta\":{\"content\":\"'' @ t @ ''\"}}]}''"

text \<open>Two line feeds as a JSON string writes them: \<^verbatim>\<open>\n\n\<close>.\<close>

definition escaped_nl2 :: string where
  "escaped_nl2 = [CHR 0x5C, CHR ''n'', CHR 0x5C, CHR ''n'']"

definition example_deltaContent :: "string \<Rightarrow> delta" where
  "example_deltaContent m =
     (if m = example_payload ''Hel'' then Content ''Hel''
      else if m = example_payload ''lo'' then Content ''lo''
      else if m = example_payload ''Hi'' then Content ''Hi''
      else if m = example_payload escaped_nl2 then Content ''\<newline>\<newline>''
      else if m = example_payload (escaped_nl2 @ ''there'') then Content ''\<newline>\<newline>there''
      else if m = ''{\"choices\":[{\"delta\":{\"role\":\"assistant\"}}]}'' then NoContent
      else ParseError)"

definition example_chunks :: "string list" where
  "example_chunks =
     [''data: '' @ example_payload ''Hel'' @ ''\<newline>\<newline>'',
      ''data: '' @ example_payload ''lo'' @ ''\<newline>\<newline>'',
      ''data: [DONE]\<newline>\<newline>'']"

text \<open>A stream that starts with an empty line, as the provider's streams do.\<close>

definition example_chunks_nl :: "string list" where
  "example_chunks_nl =
     [''data: {\"choices\":[{\"delta\":{\"role\":\"assistant\"}}]}\<newline>\<newline>'',
      ''data: '' @ example_payload escaped_nl2 @ ''\<newline>\<newline>'',
      ''data: '' @ example_payload ''Hi'' @ ''\<newline>\<newline>'',
      ''data: '' @ example_payload (escaped_nl2 @ ''there'') @ ''\<newline>\<newline>data: [DONE]\<newline>\<newline>'']"

definition example_env :: env where
  "example_env =
     \<lparr>files = [''greeting.txt'' \<mapsto> ''there''],
      normalizePath_fn = normalizePath ''/home/u'',
      countTokens = length,
      createChatCompletion = (\<lambda>mdl msgs. BatchData (Some 42) (Some ''Hi there'')),
      createChatCompletionStream = (\<lambda>mdl msgs. StreamData example_chunks None),
      deltaContent = example_deltaContent,
      saveFiles = (\<lambda>resp diffFile sv. None),
      DEFAULT_MODEL = ''gpt-3.5-turbo'',
      DIFF_COMMAND = ''vimdiff'',
      TOKEN_COST_text = (\<lambda>n. ''0''),
      start_ms = 1000,
      end_ms = 2500,
      currentTimestamp = ''1/1/2024, 10:00:00 AM'',
      isatty = False\<rparr>"

definition example_options :: options where
  "example_options =
     \<lparr>chat = False, stream = False, stats = True, model = None, dryrun = False, save = False,
      diff = None, prompt = None\<rparr>"

definition example_world :: world where
  "example_world = \<lparr>logFile = None, calls = [], effects = []\<rparr>"

section \<open>Properties of the string built-ins\<close>

lemma split_nl_nonempty: "split_nl s \<noteq> []"
  by (induction s) (simp_all add: Let_def)

lemma join_cons_char: "join sep ((c # x) # xs) = c # join sep (x # xs)"
  by (cases xs) simp_all

lemma join_split_nl: "join [CHR 0x0A] (split_nl s) = s"
proof (induction s)
  case Nil
  show ?case by simp
next
  case (Cons c cs)
  obtain y ys where r: "split_nl cs = y # ys"
    using split_nl_nonempty [of cs] by (cases "split_nl cs") auto
  show ?case
  proof (cases "c = CHR 0x0A")
    case True
    with Cons r show ?thesis by simp
  next
    case False
    with Cons r show ?thesis by (simp add: join_cons_char)
  qed
qed

lemma split_nl_no_newline: "l \<in> set (split_nl s) \<Longrightarrow> CHR 0x0A \<notin> set l"
proof (induction s arbitrary: l)
  case Nil
  then show ?case by simp
next
  case (Cons c cs)
  obtain y ys where r: "split_nl cs = y # ys"
    using split_nl_nonempty [of cs] by (cases "split_nl cs") auto
  have y: "CHR 0x0A \<notin> set y" and ys: "\<And>l. l \<in> set ys \<Longrightarrow> CHR 0x0A \<notin> set l"
    using Cons.IH r by auto
  show ?case
    using Cons.prems r y ys by (auto simp: Let_def split: if_splits)
qed

lemma split_ws_nonempty: "split_ws s \<noteq> []"
  by (induction s rule: split_ws.induct) (simp_all add: Let_def)

lemma split_ws_two: "\<exists>c\<in>set s. isSpace c \<Longrightarrow> \<exists>a f r. split_ws s = a # f # r"
proof (induction s rule: split_ws.induct)
  case 1
  then show ?case by simp
next
  case (2 c cs)
  show ?case
  proof (cases "isSpace c")
    case True
    obtain y ys where "split_ws (dropWhile isSpace cs) = y # ys"
      using split_ws_nonempty [of "dropWhile isSpace cs"]
      by (cases "split_ws (dropWhile isSpace cs)") auto
    with True show ?thesis by simp
  next
    case False
    with "2.prems" have "\<exists>c\<in>set cs. isSpace c" by auto
    with "2.IH"(2) False obtain a f r where "split_ws cs = a # f # r" by blast
    with False show ?thesis by (simp add: Let_def)
  qed
qed

lemma matchDirective_has_space: "matchDirective kw line \<Longrightarrow> \<exists>c\<in>set line. isSpace c"
proof -
  assume m: "matchDirective kw line"
  then obtain c cs where d: "drop (length kw) (dropWhile isSpace line) = c # cs" and c: "isSpace c"
    by (auto simp: matchDirective_def Let_def split: list.splits)
  have "c \<in> set (drop (length kw) (dropWhile isSpace line))" using d by simp
  then have "c \<in> set (dropWhile isSpace line)" by (rule in_set_dropD)
  then have "c \<in> set line" by (rule set_mp [OF set_dropWhileD [THEN subsetI], rotated])
  with c show ?thesis by blast
qed

lemma directive_has_fname: "is_directive line \<Longrightarrow> \<exists>f. fname_of line = Some f"
proof -
  assume "is_directive line"
  then have "\<exists>c\<in>set line. isSpace c"
    by (auto simp: is_directive_def importFile_match_def diffFile_match_def
             dest: matchDirective_has_space)
  then obtain a f r where "split_ws line = a # f # r" using split_ws_two by blast
  then show ?thesis by (simp add: fname_of_def)
qed

lemma importLoop_no_directives:
  "\<forall>l\<in>set lines. \<not> is_directive l \<Longrightarrow>
   importLoop nrm fs lines m d = Inr (True, join [CHR 0x0A] (m @ lines), d)"
  by (induction lines arbitrary: m) (simp_all add: is_directive_def)

lemma importLoop_prefix:
  "\<forall>l\<in>set pre. is_directive l \<longrightarrow> readable nrm fs l \<Longrightarrow>
   importLoop nrm fs (pre @ rest) m d =
   importLoop nrm fs rest (m @ spliced nrm fs pre) (d @ diff_targets nrm pre)"
proof (induction pre arbitrary: m d)
  case Nil
  show ?case by simp
next
  case (Cons l pre)
  have rest: "\<forall>l\<in>set pre. is_directive l \<longrightarrow> readable nrm fs l" using Cons.prems by simp
  show ?case
  proof (cases "is_directive l")
    case False
    then have nd: "\<not> diffFile_match l" by (simp add: is_directive_def)
    from False show ?thesis
      using Cons.IH [OF rest, of "m @ [l]" d] nd by (simp add: is_directive_def)
  next
    case True
    with Cons.prems have "readable nrm fs l" by simp
    then obtain f c where f: "fname_of l = Some f" and c: "fs (nrm f) = Some c"
      by (auto simp: readable_def split: option.splits)
    show ?thesis
    proof (cases "diffFile_match l")
      case True
      then show ?thesis
        using Cons.IH [OF rest, of "m @ split_nl c" "d @ [nrm f]"] f c
        by (simp add: is_directive_def)
    next
      case False
      with \<open>is_directive l\<close> show ?thesis
        using Cons.IH [OF rest, of "m @ split_nl c" d] f c
        by (simp add: is_directive_def)
    qed
  qed
qed

lemma importLoop_fails_here:
  assumes "is_directive line" and "fname_of line = Some f" and "fs (nrm f) = None"
  shows "importLoop nrm fs (line # post) m d =
         Inr (False, not_found_text (nrm f), if diffFile_match line then d @ [nrm f] else d)"
  using assms by (simp add: is_directive_def Let_def)

lemma path_char_not_space: "isPathChar c \<Longrightarrow> \<not> isSpace c"
  by (auto simp: isPathChar_def isSpace_def isWord_def Let_def)

lemma matchDirective_iff_shape:
  assumes "kw \<noteq> []" and "\<not> isSpace (hd kw)"
  shows "matchDirective kw line \<longleftrightarrow> directive_shape kw line"
proof
  assume m: "matchDirective kw line"
  define r where "r = dropWhile isSpace line"
  from m have k: "take (length kw) r = kw" by (simp add: matchDirective_def r_def Let_def)
  from m obtain c cs where dr: "drop (length kw) r = c # cs" and c: "isSpace c"
    by (auto simp: matchDirective_def Let_def r_def split: list.splits)
  from m dr obtain d ds where dd: "dropWhile isSpace cs = d # ds" and d: "isPathChar d"
    by (auto simp: matchDirective_def Let_def r_def split: list.splits)
  have "line = takeWhile isSpace line @ r" by (simp add: r_def)
  also have "r = kw @ c # cs" using k dr by (metis append_take_drop_id)
  also have "cs = takeWhile isSpace cs @ d # ds" using dd by (metis takeWhile_dropWhile_id)
  finally have "line = takeWhile isSpace line @ kw @ (c # takeWhile isSpace cs) @ [d] @ ds"
    by simp
  moreover have "\<forall>x\<in>set (takeWhile isSpace line). isSpace x" by (auto dest: set_takeWhileD)
  moreover have "\<forall>x\<in>set (c # takeWhile isSpace cs). isSpace x"
    using c by (auto dest: set_takeWhileD)
  ultimately show "directive_shape kw line"
    unfolding directive_shape_def using d by (intro exI conjI) (assumption | simp)+
next
  assume "directive_shape kw line"
  then obtain ws1 ws2 p rest where line: "line = ws1 @ kw @ ws2 @ p @ rest"
    and ws1: "\<forall>c\<in>set ws1. isSpace c" and ws2: "ws2 \<noteq> []" "\<forall>c\<in>set ws2. isSpace c"
    and p: "p \<noteq> []" "\<forall>c\<in>set p. isPathChar c"
    unfolding directive_shape_def by blast
  obtain k ks where kw: "kw = k # ks" using assms(1) by (cases kw) auto
  with assms(2) have k: "\<not> isSpace k" by simp
  obtain c cs where w2: "ws2 = c # cs" using ws2(1) by (cases ws2) auto
  obtain d ds where pp: "p = d # ds" using p(1) by (cases p) auto
  have d: "isPathChar d" using p(2) pp by simp
  have r: "dropWhile isSpace line = kw @ ws2 @ p @ rest"
    unfolding line using ws1 k kw by (simp add: dropWhile_append3)
  have r3: "dropWhile isSpace (cs @ p @ rest) = p @ rest"
    using ws2(2) w2 pp path_char_not_space [OF d] by (simp add: dropWhile_append3)
  show "matchDirective kw line"
    unfolding matchDirective_def r Let_def using w2 ws2(2) r3 pp d by simp
qed

lemma importFile_match_shape: "importFile_match line \<longleftrightarrow> directive_shape ''#import'' line"
  unfolding importFile_match_def by (rule matchDirective_iff_shape) (simp_all add: isSpace_def)

lemma diffFile_match_shape: "diffFile_match line \<longleftrightarrow> directive_shape ''#diff'' line"
  unfolding diffFile_match_def by (rule matchDirective_iff_shape) (simp_all add: isSpace_def)

lemma split_ws_no_space: "\<forall>x\<in>set t. \<not> isSpace x \<Longrightarrow> split_ws t = [t]"
  by (induction t) (simp_all add: Let_def)

lemma split_ws_token:
  "\<forall>x\<in>set t. \<not> isSpace x \<Longrightarrow> isSpace c \<Longrightarrow>
   split_ws (t @ c # r) = t # split_ws (dropWhile isSpace r)"
  by (induction t) (simp_all add: Let_def)

lemma dropWhile_space_run:
  "\<forall>x\<in>set ws. isSpace x \<Longrightarrow> p \<noteq> [] \<Longrightarrow> \<not> isSpace (hd p) \<Longrightarrow>
   dropWhile isSpace (ws @ p @ rest) = p @ rest"
  by (cases p) (simp_all add: dropWhile_append3)

lemma fname_of_at_line_start:
  assumes kw: "\<forall>x\<in>set kw. \<not> isSpace x"
    and ws: "ws \<noteq> []" "\<forall>x\<in>set ws. isSpace x"
    and p: "p \<noteq> []" "\<forall>x\<in>set p. \<not> isSpace x"
    and rest: "rest = [] \<or> isSpace (hd rest)"
  shows "fname_of (kw @ ws @ p @ rest) = Some p"
proof -
  obtain c cs where w: "ws = c # cs" using ws(1) by (cases ws) auto
  have hp: "\<not> isSpace (hd p)" using p by (cases p) auto
  have "split_ws (kw @ ws @ p @ rest) = kw # split_ws (dropWhile isSpace (cs @ p @ rest))"
    using split_ws_token [OF kw, of c "cs @ p @ rest"] ws(2) w by simp
  also have "dropWhile isSpace (cs @ p @ rest) = p @ rest"
    using dropWhile_space_run [of cs p rest] ws(2) w p(1) hp by simp
  finally have s: "split_ws (kw @ ws @ p @ rest) = kw # split_ws (p @ rest)" .
  show ?thesis
  proof (cases rest)
    case Nil
    with s split_ws_no_space [OF p(2)] show ?thesis by (simp add: fname_of_def)
  next
    case (Cons d ds)
    with rest have "isSpace d" by simp
    with s Cons split_ws_token [OF p(2), of d ds] show ?thesis by (simp add: fname_of_def)
  qed
qed

lemma fname_of_after_leading_space:
  assumes ws1: "ws1 \<noteq> []" "\<forall>x\<in>set ws1. isSpace x"
    and kw: "kw \<noteq> []" "\<forall>x\<in>set kw. \<not> isSpace x"
    and ws: "ws \<noteq> []" "\<forall>x\<in>set ws. isSpace x"
  shows "fname_of (ws1 @ kw @ ws @ rest) = Some kw"
proof -
  obtain b bs where w1: "ws1 = b # bs" using ws1(1) by (cases ws1) auto
  obtain c cs where w: "ws = c # cs" using ws(1) by (cases ws) auto
  have hk: "\<not> isSpace (hd kw)" using kw by (cases kw) auto
  have "split_ws (ws1 @ kw @ ws @ rest) = [] # split_ws (dropWhile isSpace (bs @ kw @ ws @ rest))"
    using w1 ws1(2) by simp
  also have "dropWhile isSpace (bs @ kw @ ws @ rest) = kw @ ws @ rest"
    using dropWhile_space_run [of bs kw "ws @ rest"] ws1(2) w1 kw(1) hk by simp
  also have "split_ws (kw @ ws @ rest) = kw # split_ws (dropWhile isSpace (cs @ rest))"
    using split_ws_token [OF kw(2), of c "cs @ rest"] ws(2) w by simp
  finally show ?thesis by (simp add: fname_of_def)
qed

lemma expand_fails_at_first_unreadable:
  assumes "split_nl req = pre @ line # post"
    and "\<forall>l\<in>set pre. is_directive l \<longrightarrow> readable nrm fs l"
    and "is_directive line"
    and "fname_of line = Some f"
    and "fs (nrm f) = None"
  shows "importFiles nrm fs req =
           Inr (False, not_found_text (nrm f),
                diff_targets nrm pre @ (if diffFile_match line then [nrm f] else []))"
  unfolding importFiles_def assms(1)
  using importLoop_prefix [OF assms(2), of "line # post" "[]" "[]"]
    importLoop_fails_here [of line f fs nrm post "spliced nrm fs pre" "diff_targets nrm pre"]
    assms(3,4,5)
  by simp

lemmas directive_eval =
  is_directive_def importFile_match_def diffFile_match_def matchDirective_def isSpace_def
  isPathChar_def isWord_def fname_of_def normalizePath_def not_found_text_def readable_def Let_def

section \<open>Properties of the log\<close>

lemma appendToLog_valid:
  "valid_log lf \<Longrightarrow> appendToLog e lf = Inr (Some (Json (entries_of lf @ [e])))"
  by (auto simp: valid_log_def appendToLog_def readLogFile_def JSON_parse_def JSON_stringify_def
        entries_of_def split: option.splits file_text.splits)

lemma valid_log_Json: "valid_log (Some (Json es))"
  by (simp add: valid_log_def)

lemma appendAll_valid:
  "valid_log lf \<Longrightarrow> es \<noteq> [] \<Longrightarrow> appendAll es lf = Inr (Some (Json (entries_of lf @ es)))"
proof (induction es arbitrary: lf)
  case Nil
  then show ?case by simp
next
  case (Cons e es)
  show ?case
  proof (cases "es = []")
    case True
    with Cons.prems show ?thesis by (simp add: appendToLog_valid)
  next
    case False
    with Cons.IH [OF valid_log_Json False, of "entries_of lf @ [e]"] Cons.prems
    show ?thesis by (simp add: appendToLog_valid entries_of_def)
  qed
qed

lemma getPrviousRequests_Json:
  "getPrviousRequests (Some (Json es)) = Inr (if es = [] then [] else messages (last es))"
proof (cases es rule: rev_cases)
  case Nil
  then show ?thesis
    by (simp add: getPrviousRequests_def readLogFile_def JSON_parse_def slice_last_def)
next
  case (snoc ys y)
  then show ?thesis
    by (simp add: getPrviousRequests_def readLogFile_def JSON_parse_def slice_last_def)
qed

section \<open>Properties of the stream handler\<close>

lemma handle_line_done:
  "is_done l \<Longrightarrow>
   handle_line e u st l =
     (resolve (GptResult (response st) (case u of Some n \<Rightarrow> n | None \<Rightarrow> 0)) st, True)"
  by (simp add: handle_line_def is_done_def)

lemma handle_line_not_done:
  "\<not> is_done l \<Longrightarrow>
   handle_line e u st l =
     (case deltaContent e (strip_data l) of
        Content txt \<Rightarrow>
          if txt = [] then st
          else st\<lparr>spinner := False,
                  response := response st @ (if first st \<and> blank txt then [] else collapse_nl txt),
                  first := False\<rparr>
      | NoContent \<Rightarrow> st
      | ParseError \<Rightarrow> st, False)"
  by (simp add: handle_line_def is_done_def Let_def split: delta.splits)

lemma handle_lines_append:
  "\<forall>l\<in>set xs. \<not> is_done l \<Longrightarrow>
   handle_lines e u st (xs @ ys) = handle_lines e u (handle_lines e u st xs) ys"
proof (induction xs arbitrary: st)
  case Nil
  show ?case by simp
next
  case (Cons x xs)
  then have nd: "\<not> is_done x" and rest: "\<forall>l\<in>set xs. \<not> is_done l" by simp_all
  show ?case
    using Cons.IH [OF rest] by (simp add: handle_line_not_done [OF nd])
qed

lemma kept_fragments_skip_empty: "kept_fragments ([] # ts) = kept_fragments ts"
  by (simp add: kept_fragments_def)

lemma streamed_text_cons:
  "t \<noteq> [] \<Longrightarrow>
   streamed_text (t # ts) =
     (if blank t then [] else collapse_nl t) @ concat (map collapse_nl (filter (\<lambda>t. t \<noteq> []) ts))"
  by (simp add: streamed_text_def kept_fragments_def)

lemma handle_lines_response:
  "\<forall>l\<in>set ls. \<not> is_done l \<Longrightarrow>
   response (handle_lines e u st ls) =
     response st @ (if first st then streamed_text (fragment_texts e ls)
                    else concat (map collapse_nl (filter (\<lambda>t. t \<noteq> []) (fragment_texts e ls)))) \<and>
   resolved (handle_lines e u st ls) = resolved st"
proof (induction ls arbitrary: st)
  case Nil
  show ?case by (simp add: fragment_texts_def streamed_text_def kept_fragments_def)
next
  case (Cons l ls)
  then have nd: "\<not> is_done l" and rest: "\<forall>l\<in>set ls. \<not> is_done l" by simp_all
  have ft: "fragment_texts e (l # ls) =
      (case deltaContent e (strip_data l) of Content txt \<Rightarrow> [txt] | NoContent \<Rightarrow> [] | ParseError \<Rightarrow> [])
        @ fragment_texts e ls"
    by (simp add: fragment_texts_def)
  show ?case
  proof (cases "deltaContent e (strip_data l)")
    case (Content tx)
    show ?thesis
    proof (cases "tx = []")
      case True
      with Content Cons.IH [OF rest, of st] show ?thesis
        by (simp add: handle_line_not_done [OF nd] ft streamed_text_def kept_fragments_skip_empty)
    next
      case False
      with Content Cons.IH [OF rest] show ?thesis
        by (simp add: handle_line_not_done [OF nd] ft streamed_text_cons)
    qed
  next
    case NoContent
    with Cons.IH [OF rest, of st] show ?thesis
      by (simp add: handle_line_not_done [OF nd] ft)
  next
    case ParseError
    with Cons.IH [OF rest, of st] show ?thesis
      by (simp add: handle_line_not_done [OF nd] ft)
  qed
qed

lemma stream_lines_snoc:
  "stream_lines (cs @ [c]) = stream_lines cs @ filter (\<lambda>line. trim line \<noteq> []) (split_nl c)"
  by (simp add: stream_lines_def)

lemma foldl_on_data:
  "\<forall>l\<in>set (butlast (stream_lines chunks)). \<not> is_done l \<Longrightarrow>
   foldl (on_data e u) st chunks = handle_lines e u st (stream_lines chunks)"
proof (induction chunks rule: rev_induct)
  case Nil
  show ?case by (simp add: stream_lines_def)
next
  case (snoc c cs)
  let ?ls = "filter (\<lambda>line. trim line \<noteq> []) (split_nl c)"
  have pre: "\<forall>l\<in>set (butlast (stream_lines cs)). \<not> is_done l"
    using snoc.prems by (auto simp: stream_lines_snoc butlast_append dest: in_set_butlastD split: if_splits)
  have ih: "foldl (on_data e u) st cs = handle_lines e u st (stream_lines cs)"
    by (rule snoc.IH [OF pre])
  have a: "foldl (on_data e u) st (cs @ [c]) = handle_lines e u (handle_lines e u st (stream_lines cs)) ?ls"
    by (simp only: foldl_append foldl.simps ih on_data_def)
  show ?case
  proof (cases "?ls = []")
    case True
    then show ?thesis unfolding a stream_lines_snoc by simp
  next
    case False
    then have "\<forall>l\<in>set (stream_lines cs). \<not> is_done l"
      using snoc.prems by (auto simp: stream_lines_snoc butlast_append)
    then show ?thesis
      unfolding a stream_lines_snoc by (simp add: handle_lines_append)
  qed
qed

lemma stream_resolves:
  assumes "stream_lines chunks = ls @ [d]" and "is_done d" and "\<forall>l\<in>set ls. \<not> is_done l"
  shows "resolved (foldl (on_data e u) \<lparr>response = [], first = True, spinner = sp, resolved = None\<rparr> chunks) =
           Some (GptResult (streamed_text (fragment_texts e ls)) (case u of Some n \<Rightarrow> n | None \<Rightarrow> 0))"
proof -
  let ?st = "\<lparr>response = [], first = True, spinner = sp, resolved = None\<rparr>"
  have "foldl (on_data e u) ?st chunks = handle_lines e u ?st (ls @ [d])"
    using foldl_on_data [of chunks e u ?st] assms(1,3) by simp
  also have "\<dots> = handle_lines e u (handle_lines e u ?st ls) [d]"
    by (rule handle_lines_append [OF assms(3)])
  finally show ?thesis
    using handle_lines_response [OF assms(3), of e u ?st]
    by (simp add: handle_line_done [OF assms(2)] resolve_def)
qed

lemma stream_without_done:
  assumes "\<forall>l\<in>set (stream_lines chunks). \<not> is_done l"
  shows "resolved (foldl (on_data e u)
                     \<lparr>response = [], first = True, spinner = sp, resolved = None\<rparr> chunks) = None"
proof -
  let ?st = "\<lparr>response = [], first = True, spinner = sp, resolved = None\<rparr>"
  have "\<forall>l\<in>set (butlast (stream_lines chunks)). \<not> is_done l"
    using assms by (auto dest: in_set_butlastD)
  then have "foldl (on_data e u) ?st chunks = handle_lines e u ?st (stream_lines chunks)"
    by (rule foldl_on_data)
  then show ?thesis using handle_lines_response [OF assms, of e u ?st] by simp
qed

lemma concat_filter_nonempty: "concat (filter (\<lambda>t. t \<noteq> []) ts) = concat ts"
  by (induction ts) simp_all

lemma streamed_text_plain:
  assumes "\<forall>t\<in>set ts. collapse_nl t = t"
    and "\<not> blank (concat (take 1 (filter (\<lambda>t. t \<noteq> []) ts)))"
  shows "streamed_text ts = concat ts"
proof -
  have k: "kept_fragments ts = filter (\<lambda>t. t \<noteq> []) ts"
    using assms(2) by (cases "filter (\<lambda>t. t \<noteq> []) ts") (simp_all add: kept_fragments_def blank_def)
  have "map collapse_nl (filter (\<lambda>t. t \<noteq> []) ts) = filter (\<lambda>t. t \<noteq> []) ts"
    using assms(1) by (induction ts) simp_all
  then show ?thesis by (simp add: streamed_text_def k concat_filter_nonempty)
qed

lemmas stream_eval =
  streamResponse_def push_prompt_def on_data_def handle_line_def resolve_def strip_data_def
  trim_def blank_def isSpace_def example_env_def example_options_def example_deltaContent_def
  example_payload_def example_chunks_def example_chunks_nl_def escaped_nl2_def
  stream_lines_def fragment_texts_def is_done_def streamed_text_def kept_fragments_def Let_def

section \<open>Properties of the session\<close>

lemma fetch_returns:
  assumes prev: "previous_messages opts w = Inr previous"
    and llm: "LLM_fetch e (previous @ [\<lparr>role = ''user'', content = request\<rparr>]) opts sp =
                (Some r, msgs, made)"
    and valid: "valid_log (logFile w)"
  shows "fetch e opts request sp w =
           (Returned (trim (gpt_text r)),
            w\<lparr>calls := calls w @ made,
              effects := effects w @ printed e opts request sp r,
              logFile := Some (Json (entries_of (logFile w) @ [jsonLog_of e opts request msgs r]))\<rparr>)"
  using prev [unfolded previous_messages_def] llm
    appendToLog_valid [OF valid, of "jsonLog_of e opts request msgs r"]
  by (simp add: fetch_def Let_def emit_def printed_def jsonLog_of_def)

lemma fetch_pending:
  assumes "previous_messages opts w = Inr previous"
    and "LLM_fetch e (previous @ [\<lparr>role = ''user'', content = request\<rparr>]) opts sp =
           (None, msgs, made)"
  shows "fetch e opts request sp w = (Pending, w\<lparr>calls := calls w @ made\<rparr>)"
  using assms by (simp add: fetch_def previous_messages_def)

lemma trim_keeps_head:
  assumes "k \<noteq> []" and "\<not> isSpace (hd k)" and "\<not> isSpace (last k)"
  shows "trim (k @ m) = k @ rev (dropWhile isSpace (rev m))"
proof -
  have 1: "dropWhile isSpace (k @ m) = k @ m"
    using assms(1,2) by (cases k) simp_all
  have 2: "dropWhile isSpace (rev k) = rev k"
    using assms(1,3) by (cases k rule: rev_cases) simp_all
  have 3: "dropWhile isSpace (rev m @ rev k) = dropWhile isSpace (rev m) @ rev k"
  proof (cases "\<forall>x\<in>set (rev m). isSpace x")
    case True
    then have "dropWhile isSpace (rev m) = []" by simp
    with True 2 show ?thesis by (simp add: dropWhile_append)
  next
    case False
    then show ?thesis by (auto simp: dropWhile_append)
  qed
  show ?thesis by (simp add: trim_def 1 3)
qed

lemma trim_Error:
  "trim (''Error:'' @ m) = ''Error:'' @ rev (dropWhile isSpace (rev m))"
  by (rule trim_keeps_head) (simp_all add: isSpace_def)

lemma LLM_fetch_throws:
  assumes "backend_throws e opts queries m"
  shows "\<exists>msgs made. LLM_fetch e queries opts sp = (Some (error_result m), msgs, made)"
  using assms
  by (auto simp: backend_throws_def LLM_fetch_def streamResponse_def Let_def
           split: if_splits sum.splits)

lemma LLM_fetch_stream_done:
  assumes "stream opts"
    and "push_prompt e opts queries = Inr msgs"
    and "createChatCompletionStream e (model_of e opts) msgs = StreamData chunks u"
    and "stream_lines chunks = ls @ [d]" and "is_done d" and "\<forall>l\<in>set ls. \<not> is_done l"
  shows "LLM_fetch e queries opts sp =
           (Some (GptResult (streamed_text (fragment_texts e ls))
                    (case u of Some n \<Rightarrow> n | None \<Rightarrow> 0)),
            msgs, [ChatCompletion (model_of e opts) msgs True])"
  using stream_resolves [OF assms(4,5,6), of e u sp] assms(1,2,3)
  by (simp add: LLM_fetch_def streamResponse_def)

lemma importLoop_total: "\<exists>r. importLoop nrm fs lines m d = Inr r"
proof (induction lines arbitrary: m d)
  case Nil
  show ?case by (simp del: ex_simps) blast
next
  case (Cons l lines)
  show ?case
  proof (cases "is_directive l")
    case True
    then obtain f where "fname_of l = Some f" using directive_has_fname by blast
    with True Cons.IH show ?thesis
      by (cases "fs (nrm f)") (auto simp: is_directive_def Let_def)
  next
    case False
    with Cons.IH show ?thesis by (simp add: is_directive_def)
  qed
qed

lemma importFiles_total: "\<exists>success tx d. importFiles nrm fs req = Inr (success, tx, d)"
  using importLoop_total [of nrm fs "split_nl req" "[]" "[]"]
  by (auto simp: importFiles_def)

lemma read_request_early:
  "read_request e ty args w = Inl (out, w2) \<Longrightarrow>
   logFile w2 = logFile w \<and> calls w2 = calls w \<and> out \<noteq> Pending"
  by (auto simp: read_request_def emit_def split: if_splits list.splits option.splits)

lemmas session_eval =
  fetch_def LLM_fetch_def model_of_def previous_messages_def token_figure_def cost_text_def
  elapsed_def truthy_def emit_def appendToLog_def readLogFile_def JSON_parse_def
  JSON_stringify_def entries_of_def valid_log_def error_result_def backend_throws_def
  example_world_def read_request_def submitChat_def

text \<open>
  What the two \<^verbatim>\<open>catch\<close> blocks do. When the backend call is reached (the previous
  conversation, if asked for, could be read) and ends in the \<^verbatim>\<open>catch\<close> of the batch path
  or of the streaming path with an error of message \<open>m\<close>, the backend result is the text
  \<^verbatim>\<open>Error:\<close> followed by \<open>m\<close> with the token count 0; from a log that the data model
  allows, \<^verbatim>\<open>GptRequest.fetch\<close> returns that text trimmed, which starts with \<^verbatim>\<open>Error:\<close>, and
  appends one entry whose last message is the assistant message with that text.
\<close>

lemma caught_error_is_logged:
  assumes "previous_messages opts w = Inr previous"
    and "backend_throws e opts (previous @ [\<lparr>role = ''user'', content = request\<rparr>]) m"
    and "valid_log (logFile w)"
  shows "\<exists>msgs made w2.
           LLM_fetch e (previous @ [\<lparr>role = ''user'', content = request\<rparr>]) opts sp =
             (Some (GptResult (''Error:'' @ m) 0), msgs, made) \<and>
           fetch e opts request sp w = (Returned (trim (''Error:'' @ m)), w2) \<and>
           prefix ''Error:'' (trim (''Error:'' @ m)) \<and>
           (\<exists>entry. logFile w2 = Some (Json (entries_of (logFile w) @ [entry])) \<and>
                    last (messages entry) =
                      \<lparr>role = ''assistant'', content = trim (''Error:'' @ m)\<rparr>)"
proof -
  obtain msgs made where
    llm: "LLM_fetch e (previous @ [\<lparr>role = ''user'', content = request\<rparr>]) opts sp =
            (Some (error_result m), msgs, made)"
    using LLM_fetch_throws [OF assms(2)] by blast
  have p: "prefix ''Error:'' (trim (''Error:'' @ m))"
    unfolding trim_Error by (rule prefixI) simp
  show ?thesis
    using llm fetch_returns [OF assms(1) llm assms(3)] p
    by (auto simp: error_result_def jsonLog_of_def)
qed

lemma caught_error_is_logged_example:
  "fst (fetch (example_env\<lparr>createChatCompletion := \<lambda>mdl msgs. BatchError ''socket hang up ''\<rparr>)
          example_options ''Say hello'' False example_world) =
     Returned ''Error:socket hang up'' \<and>
   map (\<lambda>entry. last (messages entry))
     (entries_of (logFile (snd (fetch
        (example_env\<lparr>createChatCompletion := \<lambda>mdl msgs. BatchError ''socket hang up ''\<rparr>)
        example_options ''Say hello'' False example_world)))) =
     [\<lparr>role = ''assistant'', content = ''Error:socket hang up''\<rparr>] \<and>
   fst (fetch (example_env\<lparr>createChatCompletionStream :=
                               \<lambda>mdl msgs. StreamError ''Request failed with status code 401''\<rparr>)
          (example_options\<lparr>stream := True\<rparr>) ''Say hello'' False example_world) =
     Returned ''Error:Request failed with status code 401''"
proof -
  let ?e = "example_env\<lparr>createChatCompletion := \<lambda>mdl msgs. BatchError ''socket hang up ''\<rparr>"
  let ?s = "example_env\<lparr>createChatCompletionStream :=
                          \<lambda>mdl msgs. StreamError ''Request failed with status code 401''\<rparr>"
  let ?q = "[] @ [\<lparr>role = ''user'', content = ''Say hello''\<rparr>]"
  have 1: "previous_messages example_options example_world = Inr []"
    by (simp add: previous_messages_def example_options_def)
  have 2: "backend_throws ?e example_options ?q ''socket hang up ''"
    by (simp add: backend_throws_def example_options_def)
  have 3: "valid_log (logFile example_world)"
    by (simp add: valid_log_def example_world_def)
  have 4: "trim (''Error:'' @ ''socket hang up '') = ''Error:socket hang up''"
    by (simp add: trim_def isSpace_def)
  have 5: "previous_messages (example_options\<lparr>stream := True\<rparr>) example_world = Inr []"
    by (simp add: previous_messages_def example_options_def)
  have 6: "backend_throws ?s (example_options\<lparr>stream := True\<rparr>) ?q
             ''Request failed with status code 401''"
    by (simp add: backend_throws_def push_prompt_def example_options_def)
  have 7: "trim (''Error:'' @ ''Request failed with status code 401'') =
             ''Error:Request failed with status code 401''"
    by (simp add: trim_def isSpace_def)
  from caught_error_is_logged [OF 1 2 3, of False]
  obtain w2 entry where
    a: "fetch ?e example_options ''Say hello'' False example_world =
          (Returned (trim (''Error:'' @ ''socket hang up '')), w2)"
    and b: "logFile w2 = Some (Json (entries_of (logFile example_world) @ [entry]))"
    and c: "last (messages entry) =
              \<lparr>role = ''assistant'', content = trim (''Error:'' @ ''socket hang up '')\<rparr>"
    by blast
  from caught_error_is_logged [OF 5 6 3, of False]
  obtain w3 where
    d: "fetch ?s (example_options\<lparr>stream := True\<rparr>) ''Say hello'' False example_world =
          (Returned (trim (''Error:'' @ ''Request failed with status code 401'')), w3)"
    by blast
  have e: "entries_of (logFile w2) = [entry]"
    using b by (simp add: entries_of_def example_world_def)
  show ?thesis
    unfolding a d fst_conv snd_conv e using c 4 7 by simp
qed

section \<open>Directive expansion: the claims\<close>

text \<open>
  Claim C1, at a line with white space before \<^verbatim>\<open>#\<close>. The pattern matches the line, but the
  second piece of \<^verbatim>\<open>line.split(/\s+/)\<close> is then the keyword: the file \<^verbatim>\<open>#import\<close> is read
  instead of \<^verbatim>\<open>foo.txt\<close>, and the expansion fails although \<^verbatim>\<open>foo.txt\<close> can be read. The
  same line without the leading white space is replaced by the file's contents.
\<close>

theorem leading_space_import_reads_keyword:
  "importFile_match ''  #import foo.txt'' \<and>
   fname_of ''  #import foo.txt'' = Some ''#import'' \<and>
   importFiles (normalizePath ''/home/u'') [''foo.txt'' \<mapsto> ''hello''] ''  #import foo.txt'' =
     Inr (False, ''#import file #import was not found'', []) \<and>
   importFiles (normalizePath ''/home/u'') [''foo.txt'' \<mapsto> ''hello''] ''#import foo.txt'' =
     Inr (True, ''hello'', [])"
  by (simp add: importFiles_def directive_eval)

text \<open>
  Claim C5, at a directive with white space before \<^verbatim>\<open>#\<close> that names a file that is not
  there. The text of the failure names the keyword, not the path of the missing file; and
  where a file called \<^verbatim>\<open>#import\<close> exists the expansion succeeds and goes on to the next line.
\<close>

theorem leading_space_missing_file_not_reported:
  "importFile_match '' #import missing.txt'' \<and>
   importFiles (normalizePath ''/home/u'') Map.empty '' #import missing.txt'' =
     Inr (False, ''#import file #import was not found'', []) \<and>
   \<not> str_includes ''#import file #import was not found'' ''missing.txt'' \<and>
   importFiles (normalizePath ''/home/u'') [''#import'' \<mapsto> ''x'']
       '' #import missing.txt\<newline>rest'' =
     Inr (True, ''x\<newline>rest'', [])"
  by (simp add: importFiles_def directive_eval)

text \<open>
  Claim C9. A request text none of whose lines matches a directive pattern is returned
  unchanged, with success and with no diff targets; so a text that came out of an
  expansion and has no directive line left is returned unchanged by a second expansion.
\<close>

theorem expand_without_directives:
  assumes "\<forall>line\<in>set (split_nl req). \<not> is_directive line"
  shows "importFiles nrm fs req = Inr (True, req, []) \<and>
         (\<forall>req0 d. importFiles nrm fs req0 = Inr (True, req, d) \<longrightarrow>
            importFiles nrm fs req = Inr (True, req, []))"
  using importLoop_no_directives [OF assms, of nrm fs "[]" "[]"]
  by (simp add: importFiles_def join_split_nl)

theorem expand_without_directives_witness:
  "list_all (\<lambda>line. \<not> is_directive line) (split_nl ''Hello\<newline>  world #import a.txt'') \<and>
   importFiles (normalizePath ''/home/u'') Map.empty ''Hello\<newline>  world #import a.txt'' =
     Inr (True, ''Hello\<newline>  world #import a.txt'', [])"
proof -
  have h: "\<forall>line\<in>set (split_nl ''Hello\<newline>  world #import a.txt''). \<not> is_directive line"
    by (simp add: directive_eval)
  show ?thesis
    using h expand_without_directives [OF h, of "normalizePath ''/home/u''" Map.empty]
    by (simp add: list_all_iff)
qed

text \<open>
  Claim C10. The file of a \<^verbatim>\<open>#diff\<close> line is here the path that the loop resolves for the
  line and hands to \<^verbatim>\<open>readFileSync\<close>. When the loop reaches a \<^verbatim>\<open>#diff\<close> line (every directive
  before it could be read) and that read fails, the result is the failure triple, and the
  path whose read failed is the last element of the list returned with it, after the
  targets of the earlier \<^verbatim>\<open>#diff\<close> lines: the path is pushed before the read.
\<close>

theorem diff_failure_records_path:
  assumes "split_nl req = pre @ line # post"
    and "\<forall>l\<in>set pre. is_directive l \<longrightarrow> readable nrm fs l"
    and "diffFile_match line"
    and "fname_of line = Some f"
    and "fs (nrm f) = None"
  shows "importFiles nrm fs req =
           Inr (False, not_found_text (nrm f), diff_targets nrm pre @ [nrm f]) \<and>
         last (diff_targets nrm pre @ [nrm f]) = nrm f"
proof -
  have d: "is_directive line" using assms(3) by (simp add: is_directive_def)
  show ?thesis
    using expand_fails_at_first_unreadable [OF assms(1,2) d assms(4,5)] assms(3) by simp
qed

theorem diff_failure_records_path_witness:
  "importFiles (normalizePath ''/home/u'') [''a.txt'' \<mapsto> ''A''] ''#diff a.txt\<newline>#diff ~/b.txt\<newline>tail'' =
     Inr (False, ''#import file /home/u/b.txt was not found'', [''a.txt'', ''/home/u/b.txt''])"
proof -
  have 1: "split_nl ''#diff a.txt\<newline>#diff ~/b.txt\<newline>tail'' = [''#diff a.txt''] @ ''#diff ~/b.txt'' # [''tail'']"
    by simp
  have 2: "\<forall>l\<in>set [''#diff a.txt'']. is_directive l \<longrightarrow>
             readable (normalizePath ''/home/u'') [''a.txt'' \<mapsto> ''A''] l"
    by (simp add: directive_eval)
  have 3: "diffFile_match ''#diff ~/b.txt''" by (simp add: directive_eval)
  have 4: "fname_of ''#diff ~/b.txt'' = Some ''~/b.txt''" by (simp add: directive_eval)
  have 5: "[''a.txt'' \<mapsto> ''A''] (normalizePath ''/home/u'' ''~/b.txt'') = None"
    by (simp add: directive_eval)
  have 6: "not_found_text (normalizePath ''/home/u'' ''~/b.txt'') =
             ''#import file /home/u/b.txt was not found''"
    by (simp add: directive_eval)
  have 7: "diff_targets (normalizePath ''/home/u'') [''#diff a.txt''] @
             [normalizePath ''/home/u'' ''~/b.txt''] = [''a.txt'', ''/home/u/b.txt'']"
    by (simp add: directive_eval)
  from diff_failure_records_path [OF 1 2 3 4 5]
  have "importFiles (normalizePath ''/home/u'') [''a.txt'' \<mapsto> ''A'']
          ''#diff a.txt\<newline>#diff ~/b.txt\<newline>tail'' =
        Inr (False, not_found_text (normalizePath ''/home/u'' ''~/b.txt''),
             diff_targets (normalizePath ''/home/u'') [''#diff a.txt''] @
               [normalizePath ''/home/u'' ''~/b.txt''])"
    by (rule conjunct1)
  then show ?thesis by (simp only: 6 7)
qed

section \<open>The conversation log: the claims\<close>

text \<open>
  Claim C2, at a log file that does not exist. \<^verbatim>\<open>getPrviousRequests\<close> reads the file without
  the check that \<^verbatim>\<open>appendToLog\<close> makes first, so the read throws; \<^verbatim>\<open>appendToLog\<close> on the
  same state creates the file. On a file holding the empty array the result is empty.
  A first exchange with the option \<^verbatim>\<open>chat\<close> reaches that read and raises before the provider
  is called.
\<close>

theorem missing_log_raises:
  "getPrviousRequests None = Inl ENOENT \<and>
   appendToLog entry None = Inr (Some (Json [entry])) \<and>
   getPrviousRequests (Some (Json [])) = Inr [] \<and>
   fetch example_env (example_options\<lparr>chat := True\<rparr>) ''Say hello'' True example_world =
     (Raised ENOENT, example_world)"
  by (simp add: getPrviousRequests_def appendToLog_def readLogFile_def JSON_parse_def
        JSON_stringify_def slice_last_def fetch_def example_world_def)

text \<open>
  Claim C6. From every state of the log that the data model allows (no file, or an array
  of entries), appending an entry and then reading the last conversation gives that
  entry's messages; and after a run of appends the result is the messages of the entry
  appended last, whatever the earlier entries were.
\<close>

theorem append_then_last_conversation:
  assumes "valid_log lf"
  shows "(\<exists>lf2. appendToLog entry lf = Inr lf2 \<and>
                getPrviousRequests lf2 = Inr (messages entry)) \<and>
         (\<exists>lf2. appendAll (earlier @ [entry]) lf = Inr lf2 \<and>
                getPrviousRequests lf2 = Inr (messages entry))"
  using appendToLog_valid [OF assms, of entry] appendAll_valid [OF assms, of "earlier @ [entry]"]
  by (simp add: getPrviousRequests_Json)

theorem append_then_last_conversation_witness:
  "valid_log (Some (Json [\<lparr>messages = [\<lparr>role = ''user'', content = ''old''\<rparr>], time = ''t0'',
                           tokens = 1, cost = ''$0'', duration = 1\<rparr>])) \<and>
   (\<exists>lf2. appendAll
            ([\<lparr>messages = [\<lparr>role = ''user'', content = ''hi''\<rparr>], time = ''t1'', tokens = 2,
               cost = ''$0'', duration = 1\<rparr>] @
             [\<lparr>messages = [\<lparr>role = ''user'', content = ''bye''\<rparr>], time = ''t2'', tokens = 3,
               cost = ''$0'', duration = 3 / 2\<rparr>])
            (Some (Json [\<lparr>messages = [\<lparr>role = ''user'', content = ''old''\<rparr>], time = ''t0'',
                           tokens = 1, cost = ''$0'', duration = 1\<rparr>])) = Inr lf2 \<and>
          getPrviousRequests lf2 = Inr [\<lparr>role = ''user'', content = ''bye''\<rparr>])"
proof -
  have h: "valid_log (Some (Json [\<lparr>messages = [\<lparr>role = ''user'', content = ''old''\<rparr>],
                                   time = ''t0'', tokens = 1, cost = ''$0'', duration = 1\<rparr>]))"
    by (simp add: valid_log_def)
  show ?thesis
    using h append_then_last_conversation [OF h,
        of "\<lparr>messages = [\<lparr>role = ''user'', content = ''bye''\<rparr>], time = ''t2'', tokens = 3,
              cost = ''$0'', duration = 3 / 2\<rparr>"
           "[\<lparr>messages = [\<lparr>role = ''user'', content = ''hi''\<rparr>], time = ''t1'', tokens = 2,
              cost = ''$0'', duration = 1\<rparr>]"]
    by simp
qed

section \<open>The streaming path: the claims\<close>

text \<open>
  Claim C4, as stated, at a stream whose first text is an empty line and whose last text
  starts with two line feeds: the handler drops the first and collapses the line feeds of
  the last, so the result is not the concatenation of the texts.
\<close>

theorem stream_text_not_plain_concatenation:
  "fst (streamResponse
          (example_env\<lparr>createChatCompletionStream :=
                          \<lambda>mdl msgs. StreamData example_chunks_nl None\<rparr>)
          ''gpt-3.5-turbo'' [\<lparr>role = ''user'', content = ''Say hi''\<rparr>]
          (example_options\<lparr>stream := True\<rparr>) False) = Some (GptResult ''Hi\<newline>there'' 0) \<and>
   fragment_texts example_env (butlast (stream_lines example_chunks_nl)) =
     [''\<newline>\<newline>'', ''Hi'', ''\<newline>\<newline>there''] \<and>
   is_done (last (stream_lines example_chunks_nl)) \<and>
   concat [''\<newline>\<newline>'', ''Hi'', ''\<newline>\<newline>there''] \<noteq> ''Hi\<newline>there''"
  by (simp add: stream_eval)

text \<open>
  Claim C4, amended. When the lines of a stream are text lines followed by the end
  signal, the promise is resolved with the concatenation, in arrival order, of the texts
  that are kept: empty texts are skipped, the first of the others is dropped when it is
  white space only, and every run of line feeds inside a text becomes one line feed. The
  token count is the usage total, or 0 without one. Where no text holds a run of line
  feeds and the first text that is not empty is not blank, this is the concatenation of
  the texts.
\<close>

theorem stream_text_is_filtered_concatenation:
  assumes "push_prompt e opts queries = Inr msgs"
    and "createChatCompletionStream e mdl msgs = StreamData chunks u"
    and "stream_lines chunks = ls @ [d]" and "is_done d" and "\<forall>l\<in>set ls. \<not> is_done l"
  shows "fst (streamResponse e mdl queries opts sp) =
           Some (GptResult (streamed_text (fragment_texts e ls))
                   (case u of Some n \<Rightarrow> n | None \<Rightarrow> 0)) \<and>
         ((\<forall>t\<in>set (fragment_texts e ls). collapse_nl t = t) \<and>
          \<not> blank (concat (take 1 (filter (\<lambda>t. t \<noteq> []) (fragment_texts e ls)))) \<longrightarrow>
          streamed_text (fragment_texts e ls) = concat (fragment_texts e ls))"
  using stream_resolves [OF assms(3,4,5), of e u sp] streamed_text_plain [of "fragment_texts e ls"]
  by (simp add: streamResponse_def assms(1,2))

theorem stream_text_is_filtered_concatenation_witness:
  "fst (streamResponse example_env ''gpt-3.5-turbo'' [\<lparr>role = ''user'', content = ''Say hello''\<rparr>]
          (example_options\<lparr>stream := True\<rparr>) False) = Some (GptResult ''Hello'' 0)"
proof -
  let ?q = "[\<lparr>role = ''user'', content = ''Say hello''\<rparr>]"
  let ?ls = "[''data: '' @ example_payload ''Hel'', ''data: '' @ example_payload ''lo'']"
  have 1: "push_prompt example_env (example_options\<lparr>stream := True\<rparr>) ?q = Inr ?q"
    by (simp add: push_prompt_def example_options_def)
  have 2: "createChatCompletionStream example_env ''gpt-3.5-turbo'' ?q =
             StreamData example_chunks None"
    by (simp add: example_env_def)
  have 3: "stream_lines example_chunks = ?ls @ [''data: [DONE]'']"
    by (simp add: stream_lines_def example_chunks_def example_payload_def trim_def isSpace_def)
  have 4: "is_done ''data: [DONE]''"
    by (simp add: is_done_def strip_data_def)
  have 5: "\<forall>l\<in>set ?ls. \<not> is_done l"
    by (simp add: is_done_def strip_data_def example_payload_def)
  have 6: "streamed_text (fragment_texts example_env ?ls) = ''Hello''"
    by (simp add: stream_eval)
  from stream_text_is_filtered_concatenation [OF 1 2 3 4 5, of False]
  have "fst (streamResponse example_env ''gpt-3.5-turbo'' ?q
               (example_options\<lparr>stream := True\<rparr>) False) =
          Some (GptResult (streamed_text (fragment_texts example_env ?ls))
                  (case None of Some n \<Rightarrow> n | None \<Rightarrow> 0))"
    by (rule conjunct1)
  then show ?thesis by (simp only: 6 option.case)
qed

section \<open>The session: the claims\<close>

text \<open>
  Claim C3, as stated, at a stream of the fragments \<^verbatim>\<open>Hel\<close> and \<^verbatim>\<open>lo\<close> and an end signal
  without a usage total, for the request \<^verbatim>\<open>Say hello\<close> and an estimate of one token per
  character: the backend result has the token count 0, and the entry written to the log
  has the estimate 14, the figure of the line of statistics.
\<close>

theorem streaming_log_records_estimate:
  "fst (LLM_fetch example_env [\<lparr>role = ''user'', content = ''Say hello''\<rparr>]
          (example_options\<lparr>stream := True\<rparr>) False) = Some (GptResult ''Hello'' 0) \<and>
   map tokens (entries_of (logFile (snd (fetch example_env (example_options\<lparr>stream := True\<rparr>)
                                           ''Say hello'' False example_world)))) = [14] \<and>
   effects (snd (fetch example_env (example_options\<lparr>stream := True\<rparr>)
                   ''Say hello'' False example_world)) =
     [StatsLine (Some 14) ''$0'' (3 / 2) True]"
  by (simp add: session_eval stream_eval)

text \<open>
  Claim C3, amended. In streaming mode, when the stream ends with the end signal and the
  provider reports no usage total, the backend result has the token count 0, and
  \<^verbatim>\<open>GptRequest.fetch\<close> puts the estimate over the request text followed by the response
  text in its place: the entry appended to the log records the estimate, and the line of
  statistics shows the same figure.
\<close>

theorem streaming_estimate_is_logged:
  assumes "stream opts"
    and "previous_messages opts w = Inr previous"
    and "push_prompt e opts (previous @ [\<lparr>role = ''user'', content = request\<rparr>]) = Inr msgs"
    and "createChatCompletionStream e (model_of e opts) msgs = StreamData chunks None"
    and "stream_lines chunks = ls @ [d]" and "is_done d" and "\<forall>l\<in>set ls. \<not> is_done l"
    and "valid_log (logFile w)"
    and "tx = streamed_text (fragment_texts e ls)"
    and "est = countTokens e (request @ tx)"
  shows "fst (LLM_fetch e (previous @ [\<lparr>role = ''user'', content = request\<rparr>]) opts sp) =
           Some (GptResult tx 0) \<and>
         fetch e opts request sp w =
           (Returned (trim tx),
            w\<lparr>calls := calls w @ [ChatCompletion (model_of e opts) msgs True],
              effects := effects w @
                (if stats opts
                 then [StatsLine (if 0 < est then Some est else None) (cost_text e opts est)
                         (elapsed e) True]
                 else []),
              logFile := Some (Json (entries_of (logFile w) @
                [\<lparr>messages = msgs @ [\<lparr>role = ''assistant'', content = trim tx\<rparr>],
                  time = currentTimestamp e, tokens = est, cost = cost_text e opts est,
                  duration = elapsed e\<rparr>]))\<rparr>)"
proof -
  have llm: "LLM_fetch e (previous @ [\<lparr>role = ''user'', content = request\<rparr>]) opts sp =
               (Some (GptResult tx 0), msgs, [ChatCompletion (model_of e opts) msgs True])"
    using LLM_fetch_stream_done [OF assms(1,3,4,5,6,7), of sp] assms(9) by simp
  show ?thesis
    using llm fetch_returns [OF assms(2) llm assms(8)]
    by (simp add: printed_def jsonLog_of_def token_figure_def assms(1,10))
qed

theorem streaming_estimate_is_logged_witness:
  "map tokens (entries_of (logFile (snd (fetch example_env (example_options\<lparr>stream := True\<rparr>)
                                           ''Say hello'' False example_world)))) = [14]"
proof -
  let ?o = "example_options\<lparr>stream := True\<rparr>"
  let ?q = "[\<lparr>role = ''user'', content = ''Say hello''\<rparr>]"
  let ?ls = "[''data: '' @ example_payload ''Hel'', ''data: '' @ example_payload ''lo'']"
  have 1: "stream ?o" by simp
  have 2: "previous_messages ?o example_world = Inr []"
    by (simp add: previous_messages_def example_options_def)
  have 3: "push_prompt example_env ?o ([] @ ?q) = Inr ?q"
    by (simp add: push_prompt_def example_options_def)
  have 4: "createChatCompletionStream example_env (model_of example_env ?o) ?q =
             StreamData example_chunks None"
    by (simp add: example_env_def)
  have 5: "stream_lines example_chunks = ?ls @ [''data: [DONE]'']"
    by (simp add: stream_lines_def example_chunks_def example_payload_def trim_def isSpace_def)
  have 6: "is_done ''data: [DONE]''"
    by (simp add: is_done_def strip_data_def)
  have 7: "\<forall>l\<in>set ?ls. \<not> is_done l"
    by (simp add: is_done_def strip_data_def example_payload_def)
  have 8: "valid_log (logFile example_world)"
    by (simp add: valid_log_def example_world_def)
  have 9: "''Hello'' = streamed_text (fragment_texts example_env ?ls)"
    by (simp add: stream_eval)
  have 10: "14 = countTokens example_env (''Say hello'' @ ''Hello'')"
    by (simp add: example_env_def)
  from streaming_estimate_is_logged [OF 1 2 3 4 5 6 7 8 9 10, of False]
  show ?thesis by (simp add: entries_of_def example_world_def)
qed

text \<open>
  Claim C7, at a stream that is opened, delivers the fragments \<^verbatim>\<open>Hel\<close> and \<^verbatim>\<open>lo\<close> and then
  breaks off: the transport fails and no end signal arrives. \<^verbatim>\<open>streamResponse\<close> registers
  the \<^verbatim>\<open>data\<close> handler only and resolves its promise only at \<^verbatim>\<open>[DONE]\<close> or in the \<^verbatim>\<open>catch\<close>
  around the call that opens the stream, so the promise is never resolved:
  \<^verbatim>\<open>GptRequest.fetch\<close> gets no result, no text starting with \<^verbatim>\<open>Error:\<close> is produced, and nothing
  is appended to the log, although the provider was called. The same failure while the
  stream is being opened is caught and gives the text \<^verbatim>\<open>Error:\<close> with the message, and a
  log entry.
\<close>

theorem stream_cut_is_not_recovered:
  "fst (fetch (example_env\<lparr>createChatCompletionStream :=
                               \<lambda>mdl msgs. StreamData (take 2 example_chunks) None\<rparr>)
          (example_options\<lparr>stream := True\<rparr>) ''Say hello'' False example_world) = Pending \<and>
   logFile (snd (fetch (example_env\<lparr>createChatCompletionStream :=
                                       \<lambda>mdl msgs. StreamData (take 2 example_chunks) None\<rparr>)
                   (example_options\<lparr>stream := True\<rparr>) ''Say hello'' False example_world)) = None \<and>
   calls (snd (fetch (example_env\<lparr>createChatCompletionStream :=
                                     \<lambda>mdl msgs. StreamData (take 2 example_chunks) None\<rparr>)
                 (example_options\<lparr>stream := True\<rparr>) ''Say hello'' False example_world)) =
     [ChatCompletion ''gpt-3.5-turbo'' [\<lparr>role = ''user'', content = ''Say hello''\<rparr>] True] \<and>
   fragment_texts example_env (stream_lines (take 2 example_chunks)) = [''Hel'', ''lo''] \<and>
   fetch (example_env\<lparr>createChatCompletionStream := \<lambda>mdl msgs. StreamError ''socket hang up''\<rparr>)
     (example_options\<lparr>stream := True\<rparr>) ''Say hello'' False example_world =
     (Returned ''Error:socket hang up'',
      \<lparr>logFile = Some (Json
           [\<lparr>messages = [\<lparr>role = ''user'', content = ''Say hello''\<rparr>,
                          \<lparr>role = ''assistant'', content = ''Error:socket hang up''\<rparr>],
             time = ''1/1/2024, 10:00:00 AM'', tokens = 29, cost = ''$0'', duration = 3 / 2\<rparr>]),
       calls = [ChatCompletion ''gpt-3.5-turbo'' [\<lparr>role = ''user'', content = ''Say hello''\<rparr>]
                  True],
       effects = [StatsLine (Some 29) ''$0'' (3 / 2) True]\<rparr>)"
  by (simp add: session_eval stream_eval)

text \<open>
  Claim C8. When the expansion of the request fails, and in every dry run, \<^verbatim>\<open>submitChat\<close>
  ends (it returns, or the read of the input file raises) with the log file as it was
  and with no call to the provider; after a failed expansion it returns having only
  printed the text of the failure.
\<close>

theorem no_backend_no_log:
  assumes "dryrun opts \<or>
           (read_request e ty args w = Inr request \<and>
            importFiles (normalizePath_fn e) (files e) request = Inr (False, tx, d))"
  shows "logFile (snd (submitChat e ty args opts sp w)) = logFile w \<and>
         calls (snd (submitChat e ty args opts sp w)) = calls w \<and>
         fst (submitChat e ty args opts sp w) \<noteq> Pending \<and>
         (read_request e ty args w = Inr request \<and>
          importFiles (normalizePath_fn e) (files e) request = Inr (False, tx, d) \<longrightarrow>
          submitChat e ty args opts sp w = (Returned (), emit [ConsoleError tx] w))"
proof (cases "read_request e ty args w")
  case (Inl early)
  obtain out w2 where "early = (out, w2)" by (cases early)
  with Inl read_request_early [of e ty args w out w2] show ?thesis
    by (simp add: submitChat_def)
next
  case (Inr req)
  obtain success t ds where
    imp: "importFiles (normalizePath_fn e) (files e) req = Inr (success, t, ds)"
    using importFiles_total by blast
  show ?thesis
  proof (cases success)
    case False
    with Inr imp show ?thesis by (auto simp: submitChat_def emit_def)
  next
    case True
    with Inr imp assms have "dryrun opts" by auto
    with True Inr imp show ?thesis by (auto simp: submitChat_def emit_def)
  qed
qed

theorem no_backend_no_log_witness:
  "submitChat example_env ''ask'' [''ask'', ''#import'', ''nothere.txt''] example_options True
     example_world =
   (Returned (), emit [ConsoleError ''#import file nothere.txt was not found''] example_world) \<and>
   logFile (snd (submitChat example_env ''ask'' [''ask'', ''Say'', ''hello'']
                   (example_options\<lparr>dryrun := True\<rparr>) True example_world)) = None \<and>
   calls (snd (submitChat example_env ''ask'' [''ask'', ''Say'', ''hello'']
                 (example_options\<lparr>dryrun := True\<rparr>) True example_world)) = []"
proof -
  have 1: "read_request example_env ''ask'' [''ask'', ''#import'', ''nothere.txt''] example_world =
             Inr ''#import nothere.txt''"
    by (simp add: read_request_def)
  have 2: "importFiles (normalizePath_fn example_env) (files example_env) ''#import nothere.txt'' =
             Inr (False, ''#import file nothere.txt was not found'', [])"
    by (simp add: importFiles_def example_env_def directive_eval)
  have 3: "dryrun (example_options\<lparr>dryrun := True\<rparr>)" by simp
  from no_backend_no_log [of example_options example_env "''ask''"
      "[''ask'', ''#import'', ''nothere.txt'']" example_world "''#import nothere.txt''"
      "''#import file nothere.txt was not found''" "[]" True] 1 2
  have a: "submitChat example_env ''ask'' [''ask'', ''#import'', ''nothere.txt''] example_options
             True example_world =
           (Returned (), emit [ConsoleError ''#import file nothere.txt was not found'']
                           example_world)"
    by simp
  from no_backend_no_log [of "example_options\<lparr>dryrun := True\<rparr>" example_env "''ask''"
      "[''ask'', ''Say'', ''hello'']" example_world "[]" "[]" "[]" True] 3
  have b: "logFile (snd (submitChat example_env ''ask'' [''ask'', ''Say'', ''hello'']
                           (example_options\<lparr>dryrun := True\<rparr>) True example_world)) =
             logFile example_world \<and>
           calls (snd (submitChat example_env ''ask'' [''ask'', ''Say'', ''hello'']
                         (example_options\<lparr>dryrun := True\<rparr>) True example_world)) =
             calls example_world"
    by blast
  show ?thesis using a b by (simp add: example_world_def)
qed

end
